theory Spec2Isabelle
  imports Main
begin

section \<open>Python exceptions\<close>

text \<open>
  The exception classes that the two source files raise or catch, with the part of
  Python's class hierarchy that relates them: \<open>FileNotFoundError\<close> is an \<open>OSError\<close>
  (\<open>IOError\<close> is an alias of \<open>OSError\<close> in Python 3), and every class listed is an
  \<open>Exception\<close>. An exception value carries its class and the text of \<open>str(e)\<close>.
  The last three classes are error kinds that the specification names; no code under
  src/ defines or raises them.
\<close>

datatype exc_class =
  Exception | ValueError | OSError | FileNotFoundError | KeyError | AttributeError
  | ConfigurationError | StoreUnavailableError | PipelineError

datatype exc = Exc (exc_cls: exc_class) (exc_msg: string)

fun issubclass :: "exc_class \<Rightarrow> exc_class \<Rightarrow> bool" where
  "issubclass c Exception = True"
| "issubclass FileNotFoundError OSError = True"
| "issubclass c d = (c = d)"

definition isinstance :: "exc \<Rightarrow> exc_class \<Rightarrow> bool" where
  "isinstance e c = issubclass (exc_cls e) c"

section \<open>The driver singleton (utils/neo4j-driver.py)\<close>

text \<open>
  The process state the module touches: the environment, the class attribute
  \<open>Neo4jDriver._instance\<close> and two logs that record the effects on the outside world
  (every driver that \<open>GraphDatabase.driver\<close> built, every driver whose \<open>close()\<close> ran).
  Only one \<open>Neo4jDriver\<close> object is ever stored in \<open>_instance\<close>, so the object is
  modelled by the value of its single field \<open>driver\<close>: \<open>_instance = None\<close> means no object,
  \<open>Some None\<close> an object whose \<open>driver\<close> is \<open>None\<close>, \<open>Some (Some h)\<close> one holding \<open>h\<close>.
  \<open>GraphDatabase.driver\<close> belongs to the neo4j package; it is the parameter \<open>connect\<close>,
  which may raise.
\<close>

record 'h process =
  environ :: "string \<rightharpoonup> string"
  Neo4jDriver_instance :: "'h option option"
  constructed :: "'h list"
  closed_log :: "'h list"

type_synonym 'h connector = "string \<Rightarrow> string \<times> string \<Rightarrow> exc + 'h"

definition initial_process :: "(string \<rightharpoonup> string) \<Rightarrow> 'h process" where
  "initial_process env =
     \<lparr>environ = env, Neo4jDriver_instance = None, constructed = [], closed_log = []\<rparr>"

text \<open>\<open>os.environ[k]\<close> raises \<open>KeyError\<close> for a missing variable.\<close>

definition os_environ :: "'h process \<Rightarrow> string \<Rightarrow> exc + string" where
  "os_environ st k = (case environ st k of None \<Rightarrow> Inl (Exc KeyError k) | Some v \<Rightarrow> Inr v)"

text \<open>
  \<open>Neo4jDriver.__init__\<close>: the arguments of \<open>GraphDatabase.driver\<close> are evaluated left
  to right, then the driver is built, stored in the new object and the object is
  published in \<open>_instance\<close>.
\<close>

definition Neo4jDriver_init :: "'h connector \<Rightarrow> 'h process \<Rightarrow> (exc + unit) \<times> 'h process" where
  "Neo4jDriver_init connect st =
     (case Neo4jDriver_instance st of
        Some obj \<Rightarrow> (Inl (Exc Exception ''This class is a singleton!''), st)
      | None \<Rightarrow>
          (case os_environ st ''NEO4J_URI'' of
             Inl e \<Rightarrow> (Inl e, st)
           | Inr uri \<Rightarrow>
               (case os_environ st ''NEO4J_USERNAME'' of
                  Inl e \<Rightarrow> (Inl e, st)
                | Inr user \<Rightarrow>
                    (case os_environ st ''NEO4J_PASSWORD'' of
                       Inl e \<Rightarrow> (Inl e, st)
                     | Inr password \<Rightarrow>
                         (case connect uri (user, password) of
                            Inl e \<Rightarrow> (Inl e, st)
                          | Inr h \<Rightarrow>
                              (Inr (),
                               st\<lparr>Neo4jDriver_instance := Some (Some h),
                                  constructed := constructed st @ [h]\<rparr>))))))"

definition get_instance :: "'h connector \<Rightarrow> 'h process \<Rightarrow> (exc + unit) \<times> 'h process" where
  "get_instance connect st =
     (case Neo4jDriver_instance st of
        None \<Rightarrow> Neo4jDriver_init connect st
      | Some obj \<Rightarrow> (Inr (), st))"

text \<open>
  The two methods, called on whatever \<open>get_instance\<close> returned. A driver object is
  truthy, so \<open>if self.driver\<close> tests for \<open>None\<close>.
\<close>

definition close_method :: "'h process \<Rightarrow> (exc + unit) \<times> 'h process" where
  "close_method st =
     (case Neo4jDriver_instance st of
        None \<Rightarrow> (Inl (Exc AttributeError ''close''), st)
      | Some None \<Rightarrow> (Inr (), st)
      | Some (Some h) \<Rightarrow>
          (Inr (), st\<lparr>Neo4jDriver_instance := Some None, closed_log := closed_log st @ [h]\<rparr>))"

definition get_driver :: "'h process \<Rightarrow> exc + 'h option" where
  "get_driver st =
     (case Neo4jDriver_instance st of
        None \<Rightarrow> Inl (Exc AttributeError ''get_driver'')
      | Some d \<Rightarrow> Inr d)"

definition get_neo4j_driver :: "'h connector \<Rightarrow> 'h process \<Rightarrow> (exc + 'h option) \<times> 'h process" where
  "get_neo4j_driver connect st =
     (case get_instance connect st of
        (Inl e, st') \<Rightarrow> (Inl e, st')
      | (Inr u, st') \<Rightarrow> (get_driver st', st'))"

definition close_neo4j_driver :: "'h connector \<Rightarrow> 'h process \<Rightarrow> (exc + unit) \<times> 'h process" where
  "close_neo4j_driver connect st =
     (case get_instance connect st of
        (Inl e, st') \<Rightarrow> (Inl e, st')
      | (Inr u, st') \<Rightarrow> close_method st')"

text \<open>A client of the module is a sequence of calls of its two functions.\<close>

datatype call = Get | Close

datatype 'h outcome = Got "exc + 'h option" | Closed "exc + unit"

fun run_calls :: "'h connector \<Rightarrow> call list \<Rightarrow> 'h process \<Rightarrow> 'h outcome list \<times> 'h process" where
  "run_calls connect [] st = ([], st)"
| "run_calls connect (Get # cs) st =
     (case get_neo4j_driver connect st of
        (r, st') \<Rightarrow> (case run_calls connect cs st' of (rs, st'') \<Rightarrow> (Got r # rs, st'')))"
| "run_calls connect (Close # cs) st =
     (case close_neo4j_driver connect st of
        (r, st') \<Rightarrow> (case run_calls connect cs st' of (rs, st'') \<Rightarrow> (Closed r # rs, st'')))"

text \<open>Values used to run the module on a concrete process.\<close>

definition demo_env :: "string \<rightharpoonup> string" where
  "demo_env = [''NEO4J_URI'' \<mapsto> ''bolt://db'', ''NEO4J_USERNAME'' \<mapsto> ''neo4j'',
               ''NEO4J_PASSWORD'' \<mapsto> ''secret'']"

definition demo_connect :: "(string \<times> string \<times> string) connector" where
  "demo_connect uri auth = Inr (uri, auth)"

definition demo_handle :: "string \<times> string \<times> string" where
  "demo_handle = (''bolt://db'', ''neo4j'', ''secret'')"

definition demo_open :: "(string \<times> string \<times> string) process" where
  "demo_open = \<lparr>environ = demo_env, Neo4jDriver_instance = Some (Some demo_handle),
                 constructed = [demo_handle], closed_log = []\<rparr>"

definition demo_closed :: "(string \<times> string \<times> string) process" where
  "demo_closed = \<lparr>environ = demo_env, Neo4jDriver_instance = Some None,
                   constructed = [demo_handle], closed_log = [demo_handle]\<rparr>"

text \<open>
  The invariant behind the singleton: nothing is built while \<open>_instance\<close> is \<open>None\<close>, and
  at most one driver has been built once it is set.
\<close>

definition single :: "'h process \<Rightarrow> bool" where
  "single st =
     (case Neo4jDriver_instance st of
        None \<Rightarrow> constructed st = []
      | Some d \<Rightarrow> length (constructed st) \<le> 1)"

section \<open>The pipeline (knowledge_graph/graph.py)\<close>

subsection \<open>Document loader\<close>

text \<open>
  The file system as far as the loader sees it: the directories that exist, each with
  the names \<open>os.listdir\<close> returns. \<open>os.listdir\<close> raises \<open>FileNotFoundError\<close> for a
  directory that does not exist. The module creates the upload directory when it is
  imported (\<open>os.makedirs(Uploader, exist_ok=True)\<close>).
\<close>

type_synonym filesystem = "string \<rightharpoonup> string list"

record document =
  page_content :: string
  metadata :: "(string \<times> string) list"

definition Uploader :: string where
  "Uploader = ''downloads''"



definition os_listdir :: "filesystem \<Rightarrow> string \<Rightarrow> exc + string list" where
  "os_listdir fs path =
     (case fs path of None \<Rightarrow> Inl (Exc FileNotFoundError path) | Some names \<Rightarrow> Inr names)"

definition os_path_join :: "string \<Rightarrow> string \<Rightarrow> string" where
  "os_path_join dir name = dir @ ''/'' @ name"

definition endswith :: "string \<Rightarrow> string \<Rightarrow> bool" where
  "endswith str suf = (length suf \<le> length str \<and> drop (length str - length suf) str = suf)"

text \<open>
  \<open>PyMuPDFLoader(filepath).load()\<close> and \<open>Docx2txtLoader(filepath).load()\<close> are library
  calls: each is a parameter that maps a path to the documents read, or raises.
  The loop of \<open>load_document\<close> carries the list \<open>documents\<close>; nothing in it catches an
  exception.
\<close>

type_synonym loader = "string \<Rightarrow> exc + document list"

fun load_entries :: "loader \<Rightarrow> loader \<Rightarrow> string list \<Rightarrow> document list \<Rightarrow> exc + document list" where
  "load_entries PyMuPDFLoader Docx2txtLoader [] documents = Inr documents"
| "load_entries PyMuPDFLoader Docx2txtLoader (filename # rest) documents =
     (let filepath = os_path_join Uploader filename in
      if endswith filename ''.pdf'' then
        (case PyMuPDFLoader filepath of
           Inl e \<Rightarrow> Inl e
         | Inr loaded \<Rightarrow> load_entries PyMuPDFLoader Docx2txtLoader rest (documents @ loaded))
      else if endswith filename ''.docx'' then
        (case Docx2txtLoader filepath of
           Inl e \<Rightarrow> Inl e
         | Inr loaded \<Rightarrow> load_entries PyMuPDFLoader Docx2txtLoader rest (documents @ loaded))
      else load_entries PyMuPDFLoader Docx2txtLoader rest documents)"

definition load_document :: "filesystem \<Rightarrow> loader \<Rightarrow> loader \<Rightarrow> exc + document list" where
  "load_document fs PyMuPDFLoader Docx2txtLoader =
     (case os_listdir fs Uploader of
        Inl e \<Rightarrow> Inl e
      | Inr names \<Rightarrow> load_entries PyMuPDFLoader Docx2txtLoader names [])"

text \<open>
  The specification's reading of the dispatch: which entries are supported, and what
  loading one of them gives.
\<close>

definition supported :: "string \<Rightarrow> bool" where
  "supported filename = (endswith filename ''.pdf'' \<or> endswith filename ''.docx'')"

definition load_file :: "loader \<Rightarrow> loader \<Rightarrow> string \<Rightarrow> exc + document list" where
  "load_file PyMuPDFLoader Docx2txtLoader filename =
     (if endswith filename ''.pdf'' then PyMuPDFLoader (os_path_join Uploader filename)
      else Docx2txtLoader (os_path_join Uploader filename))"

text \<open>Loaders and a directory for running the loader on concrete input.\<close>

definition demo_loader :: loader where
  "demo_loader path = Inr [\<lparr>page_content = ''text of '' @ path, metadata = [(''source'', path)]\<rparr>]"

definition unreadable_loader :: loader where
  "unreadable_loader path = Inl (Exc OSError path)"

definition demo_fs :: filesystem where
  "demo_fs = [''downloads'' \<mapsto> [''a.pdf'', ''notes.txt'', ''b.docx'']]"

subsection \<open>Chunker\<close>

text \<open>
  Modelled from the spec: the token splitter (\<open>TokenTextSplitter\<close> of the langchain
  package, with its tokenizer) is not under src/. Section 4.2 of the specification:
  the text is tokenized by a deterministic tokenizer; consecutive windows of
  \<open>chunkSizeTokens\<close> tokens are produced, each window after the first starting
  \<open>chunkSizeTokens - overlapTokens\<close> tokens into the previous one; every chunk inherits
  the metadata of its document and gets a 0-based index; a configuration that does not
  satisfy \<open>overlapTokens < chunkSizeTokens\<close> fails with \<open>ConfigurationError\<close>.
\<close>

record text_splitter =
  chunk_size :: nat
  chunk_overlap :: nat

record 'tok tokenizer =
  encode :: "string \<Rightarrow> 'tok list"
  decode :: "'tok list \<Rightarrow> string"

record chunk =
  chunk_text :: string
  chunk_metadata :: "(string \<times> string) list"
  chunk_index :: nat

definition TokenTextSplitter :: "nat \<Rightarrow> nat \<Rightarrow> exc + text_splitter" where
  "TokenTextSplitter csize overlap =
     (if overlap < csize then Inr \<lparr>chunk_size = csize, chunk_overlap = overlap\<rparr>
      else Inl (Exc ConfigurationError ''chunk_overlap''))"

function windows :: "nat \<Rightarrow> nat \<Rightarrow> 'tok list \<Rightarrow> 'tok list list" where
  "windows csize overlap toks =
     (if toks = [] then []
      else if length toks \<le> csize \<or> csize \<le> overlap then [take csize toks]
      else take csize toks # windows csize overlap (drop (csize - overlap) toks))"
  by pat_completeness auto
termination
  by (relation "measure (\<lambda>(csize, overlap, toks). length toks)") auto

definition split_document :: "'tok tokenizer \<Rightarrow> text_splitter \<Rightarrow> document \<Rightarrow> chunk list" where
  "split_document tok sp doc =
     map (\<lambda>(i, w). \<lparr>chunk_text = decode tok w, chunk_metadata = metadata doc, chunk_index = i\<rparr>)
       (enumerate 0 (windows (chunk_size sp) (chunk_overlap sp) (encode tok (page_content doc))))"

definition split_documents :: "'tok tokenizer \<Rightarrow> text_splitter \<Rightarrow> document list \<Rightarrow> chunk list" where
  "split_documents tok sp docs = concat (map (split_document tok sp) docs)"

text \<open>
  \<open>chunk_documents\<close> itself is under src/: it takes the raw documents only and builds
  the splitter with the two literals 1536 and 250.
\<close>

definition chunk_documents :: "'tok tokenizer \<Rightarrow> document list \<Rightarrow> exc + chunk list" where
  "chunk_documents tok raw_documents =
     (case TokenTextSplitter 1536 250 of
        Inl e \<Rightarrow> Inl e
      | Inr text_splitter \<Rightarrow> Inr (split_documents tok text_splitter raw_documents))"

text \<open>A tokenizer with one token per character, to run the chunker.\<close>

definition char_tokenizer :: "char tokenizer" where
  "char_tokenizer = \<lparr>encode = (\<lambda>str. str), decode = (\<lambda>toks. toks)\<rparr>"

subsection \<open>Graph extraction and storage\<close>

record graph_node =
  node_id :: string
  node_type :: string
  node_properties :: "string \<rightharpoonup> string"

record graph_relationship =
  rel_source :: string
  rel_target :: string
  rel_type :: string
  rel_properties :: "string \<rightharpoonup> string"

record graph_document =
  gd_nodes :: "graph_node list"
  gd_relationships :: "graph_relationship list"
  gd_source :: chunk

text \<open>
  Modelled from the spec: the graph store (\<open>Neo4jGraph.add_graph_documents\<close> of the
  langchain package, and the database behind it) is not under src/. Sections 4.3 and
  4.4 of the specification: nodes are upserted by (label, id) and relationships by
  (source, target, type), the properties of an existing entry being merged (new keys
  added, existing keys overwritten); with the base-label option every node written is
  tagged with the constant \<open>baseLabel\<close>; with \<open>include_source\<close> the source chunk is
  persisted as a record of its own, linked to every node and relationship of its
  graph document; the store fails with \<open>StoreUnavailableError\<close> when the database
  cannot be reached.
\<close>

type_synonym node_key = "string \<times> string"
type_synonym rel_key = "string \<times> string \<times> string"

datatype entity_ref = NodeRef node_key | RelRef rel_key

record stored_node =
  sn_labels :: "string set"
  sn_properties :: "string \<rightharpoonup> string"

record graph_db =
  reachable :: bool
  db_nodes :: "node_key \<rightharpoonup> stored_node"
  db_relationships :: "rel_key \<rightharpoonup> (string \<rightharpoonup> string)"
  db_sources :: "chunk set"
  db_links :: "(chunk \<times> entity_ref) set"

definition baseLabel :: string where
  "baseLabel = ''__Entity__''"

definition key_of_node :: "graph_node \<Rightarrow> node_key" where
  "key_of_node n = (node_type n, node_id n)"

definition key_of_rel :: "graph_relationship \<Rightarrow> rel_key" where
  "key_of_rel r = (rel_source r, rel_target r, rel_type r)"

definition upsert_node :: "bool \<Rightarrow> graph_db \<Rightarrow> graph_node \<Rightarrow> graph_db" where
  "upsert_node base db n =
     (let old_labels = (case db_nodes db (key_of_node n) of None \<Rightarrow> {} | Some sn \<Rightarrow> sn_labels sn);
          old_props = (case db_nodes db (key_of_node n) of
                         None \<Rightarrow> Map.empty | Some sn \<Rightarrow> sn_properties sn)
      in db\<lparr>db_nodes := (db_nodes db)(key_of_node n \<mapsto>
               \<lparr>sn_labels = old_labels \<union> {node_type n} \<union> (if base then {baseLabel} else {}),
                sn_properties = old_props ++ node_properties n\<rparr>)\<rparr>)"

definition upsert_relationship :: "graph_db \<Rightarrow> graph_relationship \<Rightarrow> graph_db" where
  "upsert_relationship db r =
     (let old_props = (case db_relationships db (key_of_rel r) of
                         None \<Rightarrow> Map.empty | Some ps \<Rightarrow> ps)
      in db\<lparr>db_relationships := (db_relationships db)(key_of_rel r \<mapsto>
               old_props ++ rel_properties r)\<rparr>)"

definition link_source :: "graph_db \<Rightarrow> graph_document \<Rightarrow> graph_db" where
  "link_source db gd =
     db\<lparr>db_sources := insert (gd_source gd) (db_sources db),
        db_links := db_links db
          \<union> (\<lambda>n. (gd_source gd, NodeRef (key_of_node n))) ` set (gd_nodes gd)
          \<union> (\<lambda>r. (gd_source gd, RelRef (key_of_rel r))) ` set (gd_relationships gd)\<rparr>"

definition store_graph_document :: "bool \<Rightarrow> bool \<Rightarrow> graph_db \<Rightarrow> graph_document \<Rightarrow> graph_db" where
  "store_graph_document base include_source db gd =
     (let db1 = foldl (upsert_node base) db (gd_nodes gd);
          db2 = foldl upsert_relationship db1 (gd_relationships gd)
      in if include_source then link_source db2 gd else db2)"

definition add_graph_documents ::
    "graph_db \<Rightarrow> graph_document list \<Rightarrow> bool \<Rightarrow> bool \<Rightarrow> exc + graph_db" where
  "add_graph_documents db graph_documents baseEntityLabel include_source =
     (if reachable db
      then Inr (foldl (store_graph_document baseEntityLabel include_source) db graph_documents)
      else Inl (Exc StoreUnavailableError ''add_graph_documents''))"

text \<open>
  \<open>graphstore\<close> is under src/. The extraction call
  \<open>llm_transformer.convert_to_graph_documents\<close> is a parameter that may raise; the
  store is called once, with both options set to \<open>True\<close>. The module-level \<open>graph\<close>
  is the database state passed in and returned.
\<close>

definition graphstore ::
    "(chunk list \<Rightarrow> exc + graph_document list) \<Rightarrow> graph_db \<Rightarrow> chunk list
       \<Rightarrow> (exc + graph_document list) \<times> graph_db" where
  "graphstore convert_to_graph_documents graph documents =
     (case convert_to_graph_documents documents of
        Inl e \<Rightarrow> (Inl e, graph)
      | Inr graph_documents \<Rightarrow>
          (case add_graph_documents graph graph_documents True True of
             Inl e \<Rightarrow> (Inl e, graph)
           | Inr graph' \<Rightarrow> (Inr graph_documents, graph')))"

text \<open>An empty database, a chunk and an extraction result to run the store on.\<close>

definition empty_db :: graph_db where
  "empty_db = \<lparr>reachable = True, db_nodes = Map.empty, db_relationships = Map.empty,
               db_sources = {}, db_links = {}\<rparr>"

definition demo_chunk :: chunk where
  "demo_chunk = \<lparr>chunk_text = ''Alice works at Acme'', chunk_metadata = [], chunk_index = 0\<rparr>"

definition demo_graph_document :: graph_document where
  "demo_graph_document =
     \<lparr>gd_nodes = [\<lparr>node_id = ''Alice'', node_type = ''Person'', node_properties = Map.empty\<rparr>,
                  \<lparr>node_id = ''Acme'', node_type = ''Organization'', node_properties = Map.empty\<rparr>],
      gd_relationships = [\<lparr>rel_source = ''Alice'', rel_target = ''Acme'', rel_type = ''WORKS_AT'',
                           rel_properties = Map.empty\<rparr>],
      gd_source = demo_chunk\<rparr>"

definition demo_transformer :: "chunk list \<Rightarrow> exc + graph_document list" where
  "demo_transformer chunks = Inr (map (\<lambda>c. demo_graph_document\<lparr>gd_source := c\<rparr>) chunks)"

text \<open>
  Predicates for the store: a key holds a node tagged with the base label; a graph
  document is persisted with its provenance; a database only grows (tags, stored
  relationships, source records and links are kept, and a node entry that changed is
  tagged).
\<close>

definition tagged :: "graph_db \<Rightarrow> node_key \<Rightarrow> bool" where
  "tagged db k = (case db_nodes db k of None \<Rightarrow> False | Some sn \<Rightarrow> baseLabel \<in> sn_labels sn)"

definition grows :: "graph_db \<Rightarrow> graph_db \<Rightarrow> bool" where
  "grows db db' =
     ((\<forall>k. tagged db k \<longrightarrow> tagged db' k)
      \<and> (\<forall>k. db_nodes db' k = db_nodes db k \<or> tagged db' k)
      \<and> dom (db_relationships db) \<subseteq> dom (db_relationships db')
      \<and> db_sources db \<subseteq> db_sources db'
      \<and> db_links db \<subseteq> db_links db')"

definition persisted :: "graph_db \<Rightarrow> graph_document \<Rightarrow> bool" where
  "persisted db gd =
     ((\<forall>n\<in>set (gd_nodes gd).
         tagged db (key_of_node n) \<and> (gd_source gd, NodeRef (key_of_node n)) \<in> db_links db)
      \<and> (\<forall>r\<in>set (gd_relationships gd).
         db_relationships db (key_of_rel r) \<noteq> None
         \<and> (gd_source gd, RelRef (key_of_rel r)) \<in> db_links db)
      \<and> gd_source gd \<in> db_sources db)"

subsection \<open>Graph viewer\<close>

text \<open>
  Property values as Python sees them, with Python's truth test; \<open>PNone\<close> is what
  \<open>get\<close> returns for a missing key. (Floating-point properties are left out.)
\<close>

datatype pyval = PNone | PStr string | PInt int | PBool bool | PList "pyval list"

fun truthy :: "pyval \<Rightarrow> bool" where
  "truthy PNone = False"
| "truthy (PStr str) = (str \<noteq> [])"
| "truthy (PInt i) = (i \<noteq> 0)"
| "truthy (PBool b) = b"
| "truthy (PList vs) = (vs \<noteq> [])"

record neo4j_node =
  element_id :: int
  properties :: "string \<rightharpoonup> pyval"

record neo4j_relationship =
  relationship_type :: string

record result_row =
  row_s :: neo4j_node
  row_r :: neo4j_relationship
  row_t :: neo4j_node

text \<open>
  \<open>node.get(k)\<close> and \<open>node[k]\<close> both give \<open>None\<close> for a missing key: the driver's
  \<open>__getitem__\<close> looks the key up with \<open>get\<close> on the property dictionary and does
  not raise.
\<close>

definition node_get :: "neo4j_node \<Rightarrow> string \<Rightarrow> pyval" where
  "node_get n k = (case properties n k of None \<Rightarrow> PNone | Some v \<Rightarrow> v)"

definition node_getitem :: "neo4j_node \<Rightarrow> string \<Rightarrow> pyval" where
  "node_getitem n k = (case properties n k of None \<Rightarrow> PNone | Some v \<Rightarrow> v)"

text \<open>
  \<open>n.get("name") or n.get("title") or n["id"]\<close>: \<open>or\<close> gives its first truthy operand
  and evaluates the next one only when the previous is falsy; the last operand is the
  value when no earlier one is truthy.
\<close>

definition node_label :: "neo4j_node \<Rightarrow> pyval" where
  "node_label n =
     (if truthy (node_get n ''name'') then node_get n ''name''
      else if truthy (node_get n ''title'') then node_get n ''title''
      else node_getitem n ''id'')"

text \<open>
  Modelled from the spec: the diagram object (\<open>Network\<close> of the pyvis package) is not
  under src/. Section 4.5 of the specification: the node list is deduplicated by node
  identity and keeps first-seen order; every added edge is appended, directed and
  labelled. A node carries its identity, display label and hover title.
\<close>

record vis_node =
  vn_id :: int
  vn_label :: pyval
  vn_title :: pyval

record vis_edge =
  ve_source :: int
  ve_target :: int
  ve_title :: string
  ve_label :: string

record network =
  net_nodes :: "vis_node list"
  net_edges :: "vis_edge list"

definition Network :: network where
  "Network = \<lparr>net_nodes = [], net_edges = []\<rparr>"

definition add_node :: "network \<Rightarrow> int \<Rightarrow> pyval \<Rightarrow> pyval \<Rightarrow> network" where
  "add_node net n_id label title =
     (if n_id \<in> set (map vn_id (net_nodes net)) then net
      else net\<lparr>net_nodes := net_nodes net @ [\<lparr>vn_id = n_id, vn_label = label, vn_title = title\<rparr>]\<rparr>)"

definition add_edge :: "network \<Rightarrow> int \<Rightarrow> int \<Rightarrow> string \<Rightarrow> string \<Rightarrow> network" where
  "add_edge net src tgt title label =
     net\<lparr>net_edges := net_edges net @
           [\<lparr>ve_source = src, ve_target = tgt, ve_title = title, ve_label = label\<rparr>]\<rparr>"

text \<open>
  The body of the loop of \<open>showGraph\<close>, statement by statement: the two labels, the
  relationship type, the two hover titles, then the three calls on the diagram. On a
  row whose columns are two nodes and a relationship none of these statements raises.
\<close>

definition process_record :: "network \<Rightarrow> result_row \<Rightarrow> network" where
  "process_record net row =
     (let source_label = node_label (row_s row);
          target_label = node_label (row_t row);
          relation_label = relationship_type (row_r row);
          source_id = node_getitem (row_s row) ''id'';
          target_id = node_getitem (row_t row) ''id''
      in add_edge
           (add_node
              (add_node net (element_id (row_s row)) source_label source_id)
              (element_id (row_t row)) target_label target_id)
           (element_id (row_s row)) (element_id (row_t row))
           relation_label relation_label)"

fun process_records :: "network \<Rightarrow> result_row list \<Rightarrow> network" where
  "process_records net [] = net"
| "process_records net (row # rest) = process_records (process_record net row) rest"

text \<open>
  \<open>showGraph\<close>: the driver comes from the singleton module, \<open>session.run\<close> is the
  parameter \<open>run\<close>; calling \<open>session\<close> on a \<open>None\<close> driver raises \<open>AttributeError\<close>.
  The result is the diagram handed to the renderer.
\<close>

definition showGraph ::
    "'h connector \<Rightarrow> ('h \<Rightarrow> string \<Rightarrow> exc + result_row list) \<Rightarrow> 'h process \<Rightarrow> string
       \<Rightarrow> (exc + network) \<times> 'h process" where
  "showGraph connect run st cypher =
     (case get_neo4j_driver connect st of
        (Inl e, st') \<Rightarrow> (Inl e, st')
      | (Inr None, st') \<Rightarrow> (Inl (Exc AttributeError ''session''), st')
      | (Inr (Some driver), st') \<Rightarrow>
          (case run driver cypher of
             Inl e \<Rightarrow> (Inl e, st')
           | Inr result \<Rightarrow> (Inr (process_records Network result), st')))"

text \<open>
  The fallback chain for the label, read in two ways. \<open>display_label\<close> takes a
  property when Python's truth test accepts it. \<open>claimed_label\<close> takes a property
  when it is non-empty in the plain sense: present, and not an empty string or an
  empty list. Then the first-seen order of a list of identities, and what a row
  contributes to the diagram.
\<close>

definition display_label :: "neo4j_node \<Rightarrow> pyval" where
  "display_label n =
     (if truthy (node_get n ''name'') then node_get n ''name''
      else if truthy (node_get n ''title'') then node_get n ''title''
      else node_get n ''id'')"

fun non_empty :: "pyval \<Rightarrow> bool" where
  "non_empty PNone = False"
| "non_empty (PStr str) = (str \<noteq> [])"
| "non_empty (PInt i) = True"
| "non_empty (PBool b) = True"
| "non_empty (PList vs) = (vs \<noteq> [])"

definition claimed_label :: "neo4j_node \<Rightarrow> pyval" where
  "claimed_label n =
     (if non_empty (node_get n ''name'') then node_get n ''name''
      else if non_empty (node_get n ''title'') then node_get n ''title''
      else node_get n ''id'')"

definition first_seen :: "'a list \<Rightarrow> 'a list" where
  "first_seen xs = rev (remdups (rev xs))"

definition row_ids :: "result_row list \<Rightarrow> int list" where
  "row_ids rows = concat (map (\<lambda>row. [element_id (row_s row), element_id (row_t row)]) rows)"

definition row_edge :: "result_row \<Rightarrow> vis_edge" where
  "row_edge row =
     \<lparr>ve_source = element_id (row_s row), ve_target = element_id (row_t row),
      ve_title = relationship_type (row_r row), ve_label = relationship_type (row_r row)\<rparr>"

text \<open>Rows and diagrams to run the viewer on.\<close>

definition alice :: neo4j_node where
  "alice = \<lparr>element_id = 1, properties = [''id'' \<mapsto> PStr ''1'', ''name'' \<mapsto> PStr ''Alice'']\<rparr>"

definition acme :: neo4j_node where
  "acme = \<lparr>element_id = 2, properties = [''id'' \<mapsto> PStr ''2'', ''title'' \<mapsto> PStr ''Acme'',
      ''name'' \<mapsto> PStr '''']\<rparr>"

definition works_at :: result_row where
  "works_at = \<lparr>row_s = alice, row_r = \<lparr>relationship_type = ''WORKS_AT''\<rparr>, row_t = acme\<rparr>"

definition demo_network :: network where
  "demo_network =
     \<lparr>net_nodes = [\<lparr>vn_id = 1, vn_label = PStr ''Alice'', vn_title = PStr ''1''\<rparr>,
                   \<lparr>vn_id = 2, vn_label = PStr ''Acme'', vn_title = PStr ''2''\<rparr>],
      net_edges = [\<lparr>ve_source = 1, ve_target = 2, ve_title = ''WORKS_AT'', ve_label = ''WORKS_AT''\<rparr>]\<rparr>"

definition employs :: result_row where
  "employs = \<lparr>row_s = acme, row_r = \<lparr>relationship_type = ''EMPLOYS''\<rparr>, row_t = alice\<rparr>"

definition solo :: neo4j_node where
  "solo = \<lparr>element_id = 3, properties = [''id'' \<mapsto> PStr ''3'']\<rparr>"

definition orphan :: neo4j_node where
  "orphan = \<lparr>element_id = 4, properties = Map.empty\<rparr>"

definition knows :: result_row where
  "knows = \<lparr>row_s = solo, row_r = \<lparr>relationship_type = ''KNOWS''\<rparr>, row_t = orphan\<rparr>"

definition zero_named :: neo4j_node where
  "zero_named = \<lparr>element_id = 5, properties = [''id'' \<mapsto> PStr ''5'', ''name'' \<mapsto> PInt 0,
      ''title'' \<mapsto> PStr ''Acme'']\<rparr>"

definition demo_run :: "string \<times> string \<times> string \<Rightarrow> string \<Rightarrow> exc + result_row list" where
  "demo_run driver cypher = Inr [works_at, employs, knows]"

definition demo_diagram :: network where
  "demo_diagram =
     \<lparr>net_nodes = [\<lparr>vn_id = 1, vn_label = PStr ''Alice'', vn_title = PStr ''1''\<rparr>,
                   \<lparr>vn_id = 2, vn_label = PStr ''Acme'', vn_title = PStr ''2''\<rparr>,
                   \<lparr>vn_id = 3, vn_label = PStr ''3'', vn_title = PStr ''3''\<rparr>,
                   \<lparr>vn_id = 4, vn_label = PNone, vn_title = PNone\<rparr>],
      net_edges = [\<lparr>ve_source = 1, ve_target = 2, ve_title = ''WORKS_AT'', ve_label = ''WORKS_AT''\<rparr>,
                   \<lparr>ve_source = 2, ve_target = 1, ve_title = ''EMPLOYS'', ve_label = ''EMPLOYS''\<rparr>,
                   \<lparr>ve_source = 3, ve_target = 4, ve_title = ''KNOWS'', ve_label = ''KNOWS''\<rparr>]\<rparr>"

subsection \<open>Pipeline orchestrator\<close>

text \<open>
  \<open>create_graph\<close> calls the three stage functions once each inside one \<open>try\<close> block.
  Each stage reaches a library or a service and can raise any exception, so the
  stages are parameters: the outcome of \<open>load_document()\<close>, and the functions
  \<open>chunk_documents\<close> and \<open>graphstore\<close>. The second component of the result lists the
  stages that were called, in order. The only handler is \<open>except ValueError as e\<close>,
  which raises a new \<open>ValueError\<close> whose text embeds \<open>str(e)\<close>; an exception of
  another class passes through the \<open>try\<close> statement untouched.
\<close>

datatype stage = Loading | Chunking | Storing

definition except_ValueError :: "exc \<Rightarrow> exc" where
  "except_ValueError e =
     (if isinstance e ValueError then Exc ValueError (''graph is not loaded: '' @ exc_msg e)
      else e)"

definition create_graph ::
    "(exc + 'd) \<Rightarrow> ('d \<Rightarrow> exc + 'c) \<Rightarrow> ('c \<Rightarrow> exc + 'g) \<Rightarrow> (exc + string) \<times> stage list" where
  "create_graph load_stage chunk_stage store_stage =
     (case load_stage of
        Inl e \<Rightarrow> (Inl (except_ValueError e), [Loading])
      | Inr raw_document \<Rightarrow>
          (case chunk_stage raw_document of
             Inl e \<Rightarrow> (Inl (except_ValueError e), [Loading, Chunking])
           | Inr chunks \<Rightarrow>
               (case store_stage chunks of
                  Inl e \<Rightarrow> (Inl (except_ValueError e), [Loading, Chunking, Storing])
                | Inr graphs \<Rightarrow> (Inr ''graph is loaded'', [Loading, Chunking, Storing]))))"

text \<open>
  The specification's reading of a run: the first stage that fails, with the exception
  it raised, and the stages a run has entered when it stops there.
\<close>

definition first_failure ::
    "(exc + 'd) \<Rightarrow> ('d \<Rightarrow> exc + 'c) \<Rightarrow> ('c \<Rightarrow> exc + 'g) \<Rightarrow> (stage \<times> exc) option" where
  "first_failure load_stage chunk_stage store_stage =
     (case load_stage of
        Inl e \<Rightarrow> Some (Loading, e)
      | Inr raw_document \<Rightarrow>
          (case chunk_stage raw_document of
             Inl e \<Rightarrow> Some (Chunking, e)
           | Inr chunks \<Rightarrow>
               (case store_stage chunks of
                  Inl e \<Rightarrow> Some (Storing, e)
                | Inr graphs \<Rightarrow> None)))"

fun stages_upto :: "stage \<Rightarrow> stage list" where
  "stages_upto Loading = [Loading]"
| "stages_upto Chunking = [Loading, Chunking]"
| "stages_upto Storing = [Loading, Chunking, Storing]"

section \<open>Properties of the driver singleton\<close>

lemma get_instance_cases:
  "get_instance connect st = (r, st') \<Longrightarrow>
     (r = Inr () \<and> Neo4jDriver_instance st \<noteq> None \<and> st' = st)
   \<or> (\<exists>h. r = Inr () \<and> Neo4jDriver_instance st = None
          \<and> st' = st\<lparr>Neo4jDriver_instance := Some (Some h), constructed := constructed st @ [h]\<rparr>)
   \<or> (\<exists>e. r = Inl e \<and> Neo4jDriver_instance st = None \<and> st' = st)"
  by (auto simp: get_instance_def Neo4jDriver_init_def split: option.splits sum.splits)

lemma single_get: "single st \<Longrightarrow> single (snd (get_neo4j_driver connect st))"
  by (cases "get_instance connect st")
     (auto simp: get_neo4j_driver_def single_def dest!: get_instance_cases
           split: option.splits sum.splits)

lemma single_close: "single st \<Longrightarrow> single (snd (close_neo4j_driver connect st))"
  by (cases "get_instance connect st")
     (auto simp: close_neo4j_driver_def close_method_def single_def dest!: get_instance_cases
           split: option.splits sum.splits)

lemma single_run: "single st \<Longrightarrow> single (snd (run_calls connect cs st))"
proof (induction cs arbitrary: st)
  case Nil
  then show ?case by simp
next
  case (Cons c cs)
  show ?case
  proof (cases c)
    case Get
    with Cons.IH [OF single_get [OF Cons.prems, of connect]] show ?thesis
      by (auto split: prod.splits)
  next
    case Close
    with Cons.IH [OF single_close [OF Cons.prems, of connect]] show ?thesis
      by (auto split: prod.splits)
  qed
qed

lemma single_bound: "single st \<Longrightarrow> length (constructed st) \<le> 1"
  by (simp add: single_def split: option.splits)

lemma get_again:
  "Neo4jDriver_instance st = Some d \<Longrightarrow> get_neo4j_driver connect st = (Inr d, st)"
  by (simp add: get_neo4j_driver_def get_instance_def get_driver_def)

lemma gets_again:
  "Neo4jDriver_instance st = Some d \<Longrightarrow>
   run_calls connect (replicate n Get) st = (replicate n (Got (Inr d)), st)"
  by (induction n) (simp_all add: get_again)

lemma first_get:
  "get_neo4j_driver connect (initial_process env) = (Inr d, st) \<Longrightarrow>
   \<exists>h. d = Some h \<and> constructed st = [h] \<and> Neo4jDriver_instance st = Some (Some h)"
  by (cases "get_instance connect (initial_process env :: 'a process)")
     (auto simp: get_neo4j_driver_def get_driver_def initial_process_def
           dest!: get_instance_cases split: sum.splits)

lemma close_twice:
  "close_neo4j_driver connect st1 = (r, st2) \<Longrightarrow> close_neo4j_driver connect st2 = (r, st2)"
proof -
  assume c: "close_neo4j_driver connect st1 = (r, st2)"
  obtain r0 st0 where g: "get_instance connect st1 = (r0, st0)"
    by (cases "get_instance connect st1")
  from get_instance_cases [OF g] c g show ?thesis
    by (auto simp: close_neo4j_driver_def close_method_def get_instance_def
             split: option.splits sum.splits)
qed

lemma closed_instance:
  "close_neo4j_driver connect st = (Inr u, st') \<Longrightarrow> Neo4jDriver_instance st' = Some None"
  by (cases "get_instance connect st")
     (auto simp: close_neo4j_driver_def close_method_def
           dest!: get_instance_cases split: option.splits sum.splits)

lemma close_again:
  "Neo4jDriver_instance st = Some None \<Longrightarrow> close_neo4j_driver connect st = (Inr (), st)"
  by (simp add: close_neo4j_driver_def get_instance_def close_method_def)

lemma run_after_close:
  "Neo4jDriver_instance st = Some None \<Longrightarrow>
   run_calls connect cs st =
     (map (\<lambda>c. case c of Get \<Rightarrow> Got (Inr None) | Close \<Rightarrow> Closed (Inr ())) cs, st)"
proof (induction cs)
  case Nil
  show ?case by simp
next
  case (Cons c cs)
  then show ?case by (cases c) (simp_all add: get_again close_again)
qed

lemma demo_get:
  "get_neo4j_driver demo_connect (initial_process demo_env) = (Inr (Some demo_handle), demo_open)"
  by (simp add: get_neo4j_driver_def get_instance_def Neo4jDriver_init_def os_environ_def
        initial_process_def demo_env_def demo_connect_def demo_handle_def demo_open_def
        get_driver_def)

lemma demo_close:
  "close_neo4j_driver demo_connect demo_open = (Inr (), demo_closed)"
  by (simp add: close_neo4j_driver_def get_instance_def close_method_def demo_open_def
        demo_closed_def)

text \<open>
  C8. The driver handle is process-wide and lazily created. Starting from a fresh
  process, whatever sequence of \<open>get_neo4j_driver\<close> (and \<open>close_neo4j_driver\<close>) calls
  is made, at most one driver is ever constructed; when the first \<open>get_neo4j_driver\<close>
  returns, it returns a driver that it has just constructed, and any number of further
  calls return that same driver and change nothing; and releasing is idempotent:
  a second \<open>close_neo4j_driver\<close> returns what the first returned and leaves the
  state as the first left it.
\<close>

theorem driver_created_once:
  "length (constructed (snd (run_calls connect cs (initial_process env)))) \<le> 1
   \<and> (get_neo4j_driver connect (initial_process env) = (Inr d, st) \<longrightarrow>
        (\<exists>h. d = Some h \<and> constructed st = [h]
           \<and> run_calls connect (replicate n Get) st = (replicate n (Got (Inr (Some h))), st)))
   \<and> (close_neo4j_driver connect st1 = (r, st2) \<longrightarrow> close_neo4j_driver connect st2 = (r, st2))"
proof (intro conjI impI)
  have "single (initial_process env :: 'a process)"
    by (simp add: single_def initial_process_def)
  then show "length (constructed (snd (run_calls connect cs (initial_process env)))) \<le> 1"
    by (intro single_bound single_run)
next
  assume "get_neo4j_driver connect (initial_process env) = (Inr d, st)"
  then obtain h where "d = Some h" "constructed st = [h]"
    "Neo4jDriver_instance st = Some (Some h)"
    using first_get by blast
  then show "\<exists>h. d = Some h \<and> constructed st = [h]
           \<and> run_calls connect (replicate n Get) st = (replicate n (Got (Inr (Some h))), st)"
    by (simp add: gets_again)
next
  assume "close_neo4j_driver connect st1 = (r, st2)"
  then show "close_neo4j_driver connect st2 = (r, st2)" by (rule close_twice)
qed

theorem driver_created_once_witness:
  "get_neo4j_driver demo_connect (initial_process demo_env) = (Inr (Some demo_handle), demo_open)
   \<and> constructed demo_open = [demo_handle]
   \<and> run_calls demo_connect (replicate 3 Get) demo_open
       = (replicate 3 (Got (Inr (Some demo_handle))), demo_open)
   \<and> close_neo4j_driver demo_connect demo_open = (Inr (), demo_closed)
   \<and> close_neo4j_driver demo_connect demo_closed = (Inr (), demo_closed)
   \<and> length (constructed (snd (run_calls demo_connect [Get, Get, Close, Get]
        (initial_process demo_env)))) \<le> 1"
  using driver_created_once [of demo_connect "[Get, Get, Close, Get]" demo_env
      "Some demo_handle" demo_open 3 demo_open "Inr ()" demo_closed]
    demo_get demo_close
  by auto

text \<open>
  C9. Calling the constructor \<open>Neo4jDriver()\<close> while a singleton instance exists
  raises \<open>Exception("This class is a singleton!")\<close>; nothing is returned or replaced,
  and the process state, the existing instance included, is left as it was.
\<close>

theorem constructor_rejects_second_instance:
  "Neo4jDriver_instance st = Some obj \<Longrightarrow>
   Neo4jDriver_init connect st = (Inl (Exc Exception ''This class is a singleton!''), st)"
  by (simp add: Neo4jDriver_init_def)

theorem constructor_rejects_second_instance_witness:
  "Neo4jDriver_instance demo_open = Some (Some demo_handle)
   \<and> Neo4jDriver_init demo_connect demo_open
       = (Inl (Exc Exception ''This class is a singleton!''), demo_open)"
proof -
  have i: "Neo4jDriver_instance demo_open = Some (Some demo_handle)"
    by (simp add: demo_open_def)
  from i constructor_rejects_second_instance [OF i, of demo_connect] show ?thesis
    by simp
qed

text \<open>
  C10. Once \<open>close_neo4j_driver\<close> has returned, the singleton instance is still in
  place with its \<open>driver\<close> field cleared, and every later \<open>get_neo4j_driver\<close> returns
  \<open>None\<close>: in any later sequence of calls each \<open>get_neo4j_driver\<close> gives \<open>None\<close>, each
  \<open>close_neo4j_driver\<close> does nothing, and the state never changes again, so no
  connection is re-created.
\<close>

theorem closed_driver_stays_closed:
  "close_neo4j_driver connect st = (Inr u, st') \<Longrightarrow>
   Neo4jDriver_instance st' = Some None
   \<and> get_neo4j_driver connect st' = (Inr None, st')
   \<and> run_calls connect cs st' =
       (map (\<lambda>c. case c of Get \<Rightarrow> Got (Inr None) | Close \<Rightarrow> Closed (Inr ())) cs, st')"
  using closed_instance [of connect st u st']
  by (simp add: run_after_close get_again)

theorem closed_driver_stays_closed_witness:
  "close_neo4j_driver demo_connect demo_open = (Inr (), demo_closed)
   \<and> Neo4jDriver_instance demo_closed = Some None
   \<and> get_neo4j_driver demo_connect demo_closed = (Inr None, demo_closed)
   \<and> run_calls demo_connect [Get, Close, Get] demo_closed
       = ([Got (Inr None), Closed (Inr ()), Got (Inr None)], demo_closed)"
  using closed_driver_stays_closed [OF demo_close, of "[Get, Close, Get]"] demo_close
  by (simp del: run_calls.simps)

section \<open>Properties of the document loader\<close>

lemma load_entries_skip:
  "\<not> supported filename \<Longrightarrow> load_entries p d (filename # rest) acc = load_entries p d rest acc"
  by (simp add: supported_def)

lemma load_entries_step:
  "supported f \<Longrightarrow> load_entries p d (f # rest) acc =
     (case load_file p d f of Inl e \<Rightarrow> Inl e | Inr loaded \<Rightarrow> load_entries p d rest (acc @ loaded))"
  by (auto simp: supported_def load_file_def Let_def)

declare load_entries.simps(2) [simp del]

lemma load_entries_filter:
  "load_entries p d names acc = load_entries p d (filter supported names) acc"
proof (induction names arbitrary: acc)
  case Nil
  show ?case by simp
next
  case (Cons f names)
  show ?case
  proof (cases "supported f")
    case True
    then show ?thesis
      using Cons.IH by (auto simp: load_entries_step split: sum.splits)
  next
    case False
    then show ?thesis using Cons.IH by (simp add: load_entries_skip)
  qed
qed

lemma load_entries_documents:
  "load_entries p d names acc = Inr docs \<Longrightarrow>
   \<exists>dss. docs = acc @ concat dss \<and>
         list_all2 (\<lambda>f ds. load_file p d f = Inr ds) (filter supported names) dss"
proof (induction names arbitrary: acc)
  case Nil
  then show ?case by simp
next
  case (Cons f names)
  show ?case
  proof (cases "supported f")
    case False
    with Cons show ?thesis by (simp add: load_entries_skip)
  next
    case True
    with Cons.prems obtain loaded where l: "load_file p d f = Inr loaded"
      and r: "load_entries p d names (acc @ loaded) = Inr docs"
      by (auto simp: load_entries_step split: sum.splits)
    from Cons.IH [OF r] obtain dss where "docs = (acc @ loaded) @ concat dss"
      "list_all2 (\<lambda>f ds. load_file p d f = Inr ds) (filter supported names) dss"
      by blast
    with True l have "docs = acc @ concat (loaded # dss) \<and>
         list_all2 (\<lambda>f ds. load_file p d f = Inr ds) (filter supported (f # names)) (loaded # dss)"
      by simp
    then show ?thesis by blast
  qed
qed

lemma load_entries_unsupported:
  "\<forall>f\<in>set names. \<not> supported f \<Longrightarrow> load_entries p d names acc = Inr acc"
  by (induction names) (simp_all add: load_entries_skip)

text \<open>
  C4. For every directory listing, the loader produces documents only for entries
  whose name ends in \<open>.pdf\<close> or \<open>.docx\<close>: its outcome is the outcome on the listing
  with every other entry removed, the documents it returns are, in order, those the
  format loaders return for the supported entries, and a listing without supported
  entries gives no documents and no error.
\<close>

theorem load_document_dispatch:
  "fs Uploader = Some names \<Longrightarrow>
     load_document fs p d = load_entries p d (filter supported names) []
   \<and> (load_document fs p d = Inr docs \<longrightarrow>
        (\<exists>dss. docs = concat dss \<and>
           list_all2 (\<lambda>f ds. load_file p d f = Inr ds) (filter supported names) dss))
   \<and> ((\<forall>f\<in>set names. \<not> supported f) \<longrightarrow> load_document fs p d = Inr [])"
proof -
  assume n: "fs Uploader = Some names"
  then have eq: "load_document fs p d = load_entries p d names []"
    by (simp add: load_document_def os_listdir_def)
  have 1: "load_document fs p d = load_entries p d (filter supported names) []"
    using eq load_entries_filter [of p d names "[]"] by simp
  have 2: "load_document fs p d = Inr docs \<longrightarrow>
        (\<exists>dss. docs = concat dss \<and>
           list_all2 (\<lambda>f ds. load_file p d f = Inr ds) (filter supported names) dss)"
    using eq load_entries_documents [of p d names "[]" docs] by auto
  have 3: "(\<forall>f\<in>set names. \<not> supported f) \<longrightarrow> load_document fs p d = Inr []"
    using eq load_entries_unsupported [of names p d "[]"] by simp
  from 1 2 3 show ?thesis by blast
qed

lemma demo_listing: "demo_fs Uploader = Some [''a.pdf'', ''notes.txt'', ''b.docx'']"
  by (simp add: demo_fs_def Uploader_def)

theorem load_document_dispatch_witness:
  "demo_fs Uploader = Some [''a.pdf'', ''notes.txt'', ''b.docx'']
   \<and> filter supported [''a.pdf'', ''notes.txt'', ''b.docx''] = [''a.pdf'', ''b.docx'']
   \<and> load_document demo_fs demo_loader demo_loader =
       Inr [\<lparr>page_content = ''text of downloads/a.pdf'', metadata = [(''source'', ''downloads/a.pdf'')]\<rparr>,
            \<lparr>page_content = ''text of downloads/b.docx'', metadata = [(''source'', ''downloads/b.docx'')]\<rparr>]"
  using load_document_dispatch [where fs = demo_fs and names = "[''a.pdf'', ''notes.txt'', ''b.docx'']"
      and p = demo_loader and d = demo_loader] demo_listing
  by (simp add: demo_fs_def Uploader_def supported_def endswith_def demo_loader_def
        os_path_join_def Let_def load_entries.simps(2))






section \<open>Properties of the graph store\<close>

lemma grows_refl: "grows db db"
  by (simp add: grows_def)

lemma grows_trans: "grows a b \<Longrightarrow> grows b c \<Longrightarrow> grows a c"
  unfolding grows_def tagged_def
  apply (intro conjI allI impI)
      apply blast
     apply (metis)
    apply blast
   apply blast
  apply blast
  done

lemma grows_tagged: "grows db db' \<Longrightarrow> tagged db k \<Longrightarrow> tagged db' k"
  unfolding grows_def by blast

lemma grows_stored:
  "grows db db' \<Longrightarrow> db_relationships db k \<noteq> None \<Longrightarrow> db_relationships db' k \<noteq> None"
  unfolding grows_def by blast

lemma upsert_node_tagged: "tagged (upsert_node True db n) (key_of_node n)"
  by (simp add: upsert_node_def tagged_def Let_def)

lemma upsert_node_grows: "grows db (upsert_node True db n)"
  by (auto simp: upsert_node_def grows_def tagged_def Let_def split: option.splits)

lemma upsert_relationship_grows: "grows db (upsert_relationship db r)"
  by (auto simp: upsert_relationship_def grows_def tagged_def Let_def)

lemma upsert_relationship_stored:
  "db_relationships (upsert_relationship db r) (key_of_rel r) \<noteq> None"
  by (simp add: upsert_relationship_def Let_def)

lemma link_source_grows: "grows db (link_source db gd)"
  by (auto simp: link_source_def grows_def tagged_def)

lemma foldl_grows:
  "(\<And>d x. grows d (f d x)) \<Longrightarrow> grows db (foldl f db xs)"
proof (induction xs arbitrary: db)
  case Nil
  show ?case by (simp add: grows_refl)
next
  case (Cons x xs)
  have "grows db (f db x)" by (rule Cons.prems)
  moreover have "grows (f db x) (foldl f (f db x) xs)"
    by (rule Cons.IH) (rule Cons.prems)
  ultimately show ?case by (simp add: grows_trans [of db "f db x"])
qed

lemma foldl_upsert_nodes_tagged:
  "n \<in> set ns \<Longrightarrow> tagged (foldl (upsert_node True) db ns) (key_of_node n)"
proof (induction ns arbitrary: db)
  case Nil
  then show ?case by simp
next
  case (Cons m ns)
  show ?case
  proof (cases "n \<in> set ns")
    case True
    then show ?thesis using Cons.IH by simp
  next
    case False
    with Cons.prems have "n = m" by simp
    have "grows (upsert_node True db m) (foldl (upsert_node True) (upsert_node True db m) ns)"
      by (rule foldl_grows) (rule upsert_node_grows)
    then show ?thesis
      using upsert_node_tagged [of db m] \<open>n = m\<close> by (simp add: grows_tagged)
  qed
qed

lemma foldl_upsert_rels_stored:
  "r \<in> set rs \<Longrightarrow> db_relationships (foldl upsert_relationship db rs) (key_of_rel r) \<noteq> None"
proof (induction rs arbitrary: db)
  case Nil
  then show ?case by simp
next
  case (Cons q rs)
  show ?case
  proof (cases "r \<in> set rs")
    case True
    then show ?thesis using Cons.IH by simp
  next
    case False
    with Cons.prems have "r = q" by simp
    have "grows (upsert_relationship db q) (foldl upsert_relationship (upsert_relationship db q) rs)"
      by (rule foldl_grows) (rule upsert_relationship_grows)
    then show ?thesis
      using upsert_relationship_stored [of db q] \<open>r = q\<close> by (simp add: grows_stored)
  qed
qed

lemma store_graph_document_grows: "grows db (store_graph_document True True db gd)"
proof -
  let ?db1 = "foldl (upsert_node True) db (gd_nodes gd)"
  let ?db2 = "foldl upsert_relationship ?db1 (gd_relationships gd)"
  have 1: "grows db ?db1" by (rule foldl_grows) (rule upsert_node_grows)
  have 2: "grows ?db1 ?db2" by (rule foldl_grows) (rule upsert_relationship_grows)
  have 3: "grows ?db2 (link_source ?db2 gd)" by (rule link_source_grows)
  from grows_trans [OF grows_trans [OF 1 2] 3] show ?thesis
    by (simp add: store_graph_document_def Let_def)
qed

lemma persisted_grows: "persisted db gd \<Longrightarrow> grows db db' \<Longrightarrow> persisted db' gd"
  unfolding persisted_def grows_def by (intro conjI ballI) blast+

lemma store_graph_document_persisted: "persisted (store_graph_document True True db gd) gd"
proof -
  let ?db1 = "foldl (upsert_node True) db (gd_nodes gd)"
  let ?db2 = "foldl upsert_relationship ?db1 (gd_relationships gd)"
  have 2: "grows ?db1 ?db2" by (rule foldl_grows) (rule upsert_relationship_grows)
  have n: "\<forall>n\<in>set (gd_nodes gd). tagged ?db2 (key_of_node n)"
    using foldl_upsert_nodes_tagged [of _ "gd_nodes gd" db] grows_tagged [OF 2] by blast
  have r: "\<forall>r\<in>set (gd_relationships gd). db_relationships ?db2 (key_of_rel r) \<noteq> None"
    using foldl_upsert_rels_stored [of _ "gd_relationships gd" ?db1] by simp
  have t: "\<And>k. tagged (link_source ?db2 gd) k = tagged ?db2 k"
    by (simp add: tagged_def link_source_def)
  have e: "store_graph_document True True db gd = link_source ?db2 gd"
    by (simp add: store_graph_document_def Let_def)
  show ?thesis
    unfolding e persisted_def using n r
    by (simp add: t) (simp add: link_source_def)
qed

lemma foldl_store_persisted:
  "gd \<in> set gds \<Longrightarrow> persisted (foldl (store_graph_document True True) db gds) gd"
proof (induction gds arbitrary: db)
  case Nil
  then show ?case by simp
next
  case (Cons g gds)
  show ?case
  proof (cases "gd \<in> set gds")
    case True
    then show ?thesis using Cons.IH by simp
  next
    case False
    with Cons.prems have "gd = g" by simp
    have "grows (store_graph_document True True db g)
            (foldl (store_graph_document True True) (store_graph_document True True db g) gds)"
      by (rule foldl_grows) (rule store_graph_document_grows)
    with store_graph_document_persisted [of db g] \<open>gd = g\<close> show ?thesis
      by (simp add: persisted_grows)
  qed
qed

lemma graphstore_Inr:
  "graphstore conv db documents = (Inr gds, db') \<Longrightarrow>
   conv documents = Inr gds \<and> reachable db
   \<and> db' = foldl (store_graph_document True True) db gds"
  by (auto simp: graphstore_def add_graph_documents_def split: sum.splits if_splits)

text \<open>
  C3. When the store step returns, every node of every graph document it produced is
  persisted tagged with the constant base label and linked to the source chunk of its
  graph document; every relationship is persisted and linked to that chunk as well;
  the chunk is persisted as a record of its own; and every node entry that the step
  wrote or changed carries the base label.
\<close>

theorem graphstore_tags_and_links:
  "graphstore conv db documents = (Inr gds, db') \<Longrightarrow> gd \<in> set gds \<Longrightarrow>
     (\<forall>n\<in>set (gd_nodes gd).
         tagged db' (key_of_node n) \<and> (gd_source gd, NodeRef (key_of_node n)) \<in> db_links db')
   \<and> (\<forall>r\<in>set (gd_relationships gd).
         db_relationships db' (key_of_rel r) \<noteq> None
         \<and> (gd_source gd, RelRef (key_of_rel r)) \<in> db_links db')
   \<and> gd_source gd \<in> db_sources db'
   \<and> (\<forall>k. db_nodes db' k = db_nodes db k \<or> tagged db' k)"
proof -
  assume g: "graphstore conv db documents = (Inr gds, db')" and m: "gd \<in> set gds"
  from graphstore_Inr [OF g] have e: "db' = foldl (store_graph_document True True) db gds"
    by simp
  have "persisted db' gd" unfolding e using m by (rule foldl_store_persisted)
  moreover have "grows db db'" unfolding e
    by (rule foldl_grows) (rule store_graph_document_grows)
  ultimately show ?thesis by (simp add: persisted_def grows_def)
qed

lemma demo_store:
  "graphstore demo_transformer empty_db [demo_chunk]
     = (Inr [demo_graph_document], snd (graphstore demo_transformer empty_db [demo_chunk]))"
  by (simp add: graphstore_def demo_transformer_def add_graph_documents_def empty_db_def
        demo_graph_document_def)

theorem graphstore_tags_and_links_witness:
  "graphstore demo_transformer empty_db [demo_chunk]
     = (Inr [demo_graph_document], snd (graphstore demo_transformer empty_db [demo_chunk]))
   \<and> demo_graph_document \<in> set [demo_graph_document]
   \<and> tagged (snd (graphstore demo_transformer empty_db [demo_chunk])) (''Person'', ''Alice'')
   \<and> (demo_chunk, NodeRef (''Organization'', ''Acme''))
        \<in> db_links (snd (graphstore demo_transformer empty_db [demo_chunk]))
   \<and> (demo_chunk, RelRef (''Alice'', ''Acme'', ''WORKS_AT''))
        \<in> db_links (snd (graphstore demo_transformer empty_db [demo_chunk]))
   \<and> demo_chunk \<in> db_sources (snd (graphstore demo_transformer empty_db [demo_chunk]))"
proof -
  have m: "demo_graph_document \<in> set [demo_graph_document]" by simp
  from graphstore_tags_and_links [OF demo_store m] demo_store show ?thesis
    by (simp add: demo_graph_document_def key_of_node_def key_of_rel_def)
qed

section \<open>Properties of the graph viewer\<close>

lemma node_label_display: "node_label n = display_label n"
  by (simp add: node_label_def display_label_def node_getitem_def node_get_def)

lemma node_getitem_get: "node_getitem n k = node_get n k"
  by (simp add: node_getitem_def node_get_def)

text \<open>
  C2 (as stated) fails: a node whose \<open>name\<close> property is the number 0 has a name that
  is present and not empty, so the chain of the claim gives 0 as its label; the viewer
  skips it, because 0 is falsy, and hands the \<open>title\<close> property to the diagram.
\<close>

theorem showGraph_label_non_empty_counterexample:
  "node_get zero_named ''name'' = PInt 0
   \<and> non_empty (node_get zero_named ''name'')
   \<and> claimed_label zero_named = PInt 0
   \<and> node_label zero_named = PStr ''Acme''
   \<and> net_nodes (process_record Network
         \<lparr>row_s = zero_named, row_r = \<lparr>relationship_type = ''WORKS_AT''\<rparr>, row_t = acme\<rparr>)
       = [\<lparr>vn_id = 5, vn_label = PStr ''Acme'', vn_title = PStr ''5''\<rparr>,
          \<lparr>vn_id = 2, vn_label = PStr ''Acme'', vn_title = PStr ''2''\<rparr>]"
  by (simp add: zero_named_def acme_def claimed_label_def node_label_def node_get_def
        node_getitem_def process_record_def Network_def add_node_def add_edge_def Let_def)

text \<open>
  C2 (as amended). For every result row that the viewer processes, the display label
  of each of its two nodes is resolved by the fallback chain under Python's truth
  test: the \<open>name\<close> property if it is truthy, otherwise the \<open>title\<close> property if it is
  truthy, otherwise the \<open>id\<close> property (\<open>None\<close> when the node has none); the hover
  title is the \<open>id\<close> property whichever label was chosen. These are the label and the
  title that the row hands to the diagram for each node. A value is truthy when it is
  non-empty and is neither the number 0 nor \<open>False\<close>.
\<close>

theorem showGraph_label_fallback:
  "process_record net row =
     add_edge
       (add_node
          (add_node net (element_id (row_s row)) (display_label (row_s row))
             (node_get (row_s row) ''id''))
          (element_id (row_t row)) (display_label (row_t row)) (node_get (row_t row) ''id''))
       (element_id (row_s row)) (element_id (row_t row))
       (relationship_type (row_r row)) (relationship_type (row_r row))
   \<and> (truthy v \<longleftrightarrow> non_empty v \<and> v \<noteq> PInt 0 \<and> v \<noteq> PBool False)"
proof
  show "process_record net row =
     add_edge
       (add_node
          (add_node net (element_id (row_s row)) (display_label (row_s row))
             (node_get (row_s row) ''id''))
          (element_id (row_t row)) (display_label (row_t row)) (node_get (row_t row) ''id''))
       (element_id (row_s row)) (element_id (row_t row))
       (relationship_type (row_r row)) (relationship_type (row_r row))"
    by (simp add: process_record_def Let_def node_label_display node_getitem_get)
  show "truthy v \<longleftrightarrow> non_empty v \<and> v \<noteq> PInt 0 \<and> v \<noteq> PBool False"
    by (cases v) auto
qed

theorem showGraph_label_fallback_witness:
  "process_record Network works_at = demo_network
   \<and> display_label alice = PStr ''Alice'' \<and> display_label acme = PStr ''Acme''
   \<and> display_label solo = PStr ''3'' \<and> display_label orphan = PNone
   \<and> display_label zero_named = PStr ''Acme''
   \<and> net_nodes (process_record Network knows)
       = [\<lparr>vn_id = 3, vn_label = PStr ''3'', vn_title = PStr ''3''\<rparr>,
          \<lparr>vn_id = 4, vn_label = PNone, vn_title = PNone\<rparr>]
   \<and> truthy (PStr ''Alice'') \<and> \<not> truthy (PInt 0) \<and> \<not> truthy (PStr [])"
  using showGraph_label_fallback [of Network works_at "PStr ''Alice''"]
    showGraph_label_fallback [of Network knows "PInt 0"]
    showGraph_label_fallback [of Network knows "PStr []"]
  by (simp add: works_at_def knows_def alice_def acme_def solo_def orphan_def zero_named_def
        display_label_def node_get_def Network_def add_node_def add_edge_def demo_network_def)

lemma first_seen_snoc:
  "first_seen (xs @ [x]) = (if x \<in> set xs then first_seen xs else first_seen xs @ [x])"
  by (simp add: first_seen_def)

lemma set_first_seen: "set (first_seen xs) = set xs"
  by (simp add: first_seen_def)

lemma distinct_first_seen: "distinct (first_seen xs)"
  by (simp add: first_seen_def)

lemma ids_add_node:
  "map vn_id (net_nodes (add_node net i lab tit)) =
     (if i \<in> set (map vn_id (net_nodes net)) then map vn_id (net_nodes net)
      else map vn_id (net_nodes net) @ [i])"
  by (simp add: add_node_def)

lemma edges_add_node: "net_edges (add_node net i lab tit) = net_edges net"
  by (simp add: add_node_def)

lemma process_record_shape:
  assumes "map vn_id (net_nodes net) = first_seen pre"
  shows "map vn_id (net_nodes (process_record net row)) =
           first_seen (pre @ [element_id (row_s row), element_id (row_t row)])"
    and "net_edges (process_record net row) = net_edges net @ [row_edge row]"
proof -
  obtain sl tl si ti where
    n: "process_record net row = add_edge
                 (add_node (add_node net (element_id (row_s row)) sl si)
                    (element_id (row_t row)) tl ti)
                 (element_id (row_s row)) (element_id (row_t row))
                 (relationship_type (row_r row)) (relationship_type (row_r row))"
    by (simp add: process_record_def Let_def)
  have a: "map vn_id (net_nodes (add_node net (element_id (row_s row)) sl si)) =
             first_seen (pre @ [element_id (row_s row)])"
    using assms set_first_seen [of pre]
    by (simp add: ids_add_node first_seen_snoc)
  have b: "map vn_id (net_nodes (add_node (add_node net (element_id (row_s row)) sl si)
                    (element_id (row_t row)) tl ti)) =
             first_seen ((pre @ [element_id (row_s row)]) @ [element_id (row_t row)])"
    using a set_first_seen [of "pre @ [element_id (row_s row)]"]
    by (simp only: ids_add_node first_seen_snoc [of "pre @ [element_id (row_s row)]"] set_map)
  from b n show "map vn_id (net_nodes (process_record net row)) =
           first_seen (pre @ [element_id (row_s row), element_id (row_t row)])"
    by (simp add: add_edge_def)
  from n show "net_edges (process_record net row) = net_edges net @ [row_edge row]"
    by (simp add: add_edge_def edges_add_node row_edge_def)
qed

lemma process_records_shape:
  "map vn_id (net_nodes net) = first_seen pre \<Longrightarrow>
   map vn_id (net_nodes (process_records net rows)) = first_seen (pre @ row_ids rows)
   \<and> net_edges (process_records net rows) = net_edges net @ map row_edge rows"
proof (induction rows arbitrary: net pre)
  case Nil
  then show ?case by (simp add: row_ids_def)
next
  case (Cons row rows)
  note s = process_record_shape [OF Cons.prems, of row]
  from Cons.IH [OF s(1)] s(2) show ?case
    by (simp add: row_ids_def)
qed

lemma showGraph_Inr:
  "showGraph connect run st cypher = (Inr net, st') \<Longrightarrow>
   \<exists>driver rows. get_neo4j_driver connect st = (Inr (Some driver), st')
     \<and> run driver cypher = Inr rows \<and> net = process_records Network rows"
  by (auto simp: showGraph_def split: prod.splits sum.splits option.splits)

text \<open>
  C7. For every query result that the viewer processes, the diagram contains each
  distinct node exactly once, in first-seen order of the node identities of the rows
  (source before target), and one directed edge per row, labelled with the
  relationship's type, the edges in row order.
\<close>

theorem showGraph_nodes_and_edges:
  "showGraph connect run st cypher = (Inr net, st') \<Longrightarrow>
   \<exists>driver rows. get_neo4j_driver connect st = (Inr (Some driver), st')
     \<and> run driver cypher = Inr rows
     \<and> map vn_id (net_nodes net) = first_seen (row_ids rows)
     \<and> distinct (map vn_id (net_nodes net))
     \<and> set (map vn_id (net_nodes net)) = set (row_ids rows)
     \<and> net_edges net = map row_edge rows"
proof -
  assume "showGraph connect run st cypher = (Inr net, st')"
  from showGraph_Inr [OF this] obtain driver rows where
    g: "get_neo4j_driver connect st = (Inr (Some driver), st')"
    and r: "run driver cypher = Inr rows" and p: "net = process_records Network rows"
    by blast
  have "map vn_id (net_nodes Network) = first_seen []"
    by (simp add: Network_def first_seen_def)
  from process_records_shape [OF this, of rows] p
  have "map vn_id (net_nodes net) = first_seen (row_ids rows)"
    and "net_edges net = map row_edge rows"
    by (simp_all add: Network_def)
  with g r show ?thesis
    using distinct_first_seen [of "row_ids rows"] set_first_seen [of "row_ids rows"]
    by auto
qed

lemma demo_show:
  "showGraph demo_connect demo_run (initial_process demo_env)
      ''MATCH (s)-[r]->(t) RETURN s,r,t LIMIT 5'' = (Inr demo_diagram, demo_open)"
  by (simp add: showGraph_def demo_get demo_run_def process_record_def works_at_def
        employs_def knows_def alice_def acme_def solo_def orphan_def node_label_def
        node_get_def node_getitem_def Network_def add_node_def add_edge_def demo_diagram_def
        Let_def)

theorem showGraph_nodes_and_edges_witness:
  "showGraph demo_connect demo_run (initial_process demo_env)
      ''MATCH (s)-[r]->(t) RETURN s,r,t LIMIT 5'' = (Inr demo_diagram, demo_open)
   \<and> row_ids [works_at, employs, knows] = [1, 2, 2, 1, 3, 4]
   \<and> map vn_id (net_nodes demo_diagram) = first_seen (row_ids [works_at, employs, knows])
   \<and> map vn_id (net_nodes demo_diagram) = [1, 2, 3, 4]
   \<and> net_edges demo_diagram = map row_edge [works_at, employs, knows]"
  using showGraph_nodes_and_edges [OF demo_show] demo_show
  by (simp add: demo_get demo_run_def demo_diagram_def row_ids_def works_at_def employs_def
        knows_def alice_def acme_def solo_def orphan_def first_seen_def row_edge_def)

section \<open>Properties of the pipeline orchestrator\<close>

text \<open>
  C1 (as stated) fails: an \<open>OSError\<close> raised while loading an unreadable file reaches
  the caller as it is, and a \<open>ValueError\<close> of a stage comes out as another
  \<open>ValueError\<close>; neither is a \<open>PipelineError\<close>, and neither names the stage.
\<close>

theorem create_graph_unwrapped_counterexample:
  "create_graph (load_document demo_fs unreadable_loader demo_loader)
      (chunk_documents char_tokenizer)
      (\<lambda>chunks. fst (graphstore demo_transformer empty_db chunks))
     = (Inl (Exc OSError ''downloads/a.pdf''), [Loading])
   \<and> \<not> isinstance (Exc OSError ''downloads/a.pdf'') PipelineError
   \<and> create_graph (Inl (Exc ValueError ''bad file'') :: exc + document list)
      (chunk_documents char_tokenizer)
      (\<lambda>chunks. fst (graphstore demo_transformer empty_db chunks))
     = (Inl (Exc ValueError ''graph is not loaded: bad file''), [Loading])
   \<and> \<not> isinstance (Exc ValueError ''graph is not loaded: bad file'') PipelineError"
  by (simp add: create_graph_def load_document_def os_listdir_def demo_fs_def Uploader_def
        load_entries.simps(2) endswith_def unreadable_loader_def os_path_join_def Let_def
        except_ValueError_def isinstance_def)

text \<open>
  C1 (as amended). Every run of \<open>create_graph\<close> either returns the success value
  \<open>graph is loaded\<close> or fails. When a stage fails with a \<open>ValueError\<close>, the caller
  gets a new \<open>ValueError\<close> whose text is \<open>graph is not loaded: \<close> followed by the
  text of the cause; when a stage fails with any other exception, the caller gets that
  exception unchanged. The failing stage is not recorded in the exception. No stage is
  retried: the stages are entered in order, each at most once, and the run stops at the
  first stage that fails.
\<close>

theorem create_graph_outcome:
  "fst (create_graph load_stage chunk_stage store_stage) =
     (case first_failure load_stage chunk_stage store_stage of
        None \<Rightarrow> Inr ''graph is loaded''
      | Some (stg, cause) \<Rightarrow>
          Inl (if isinstance cause ValueError
               then Exc ValueError (''graph is not loaded: '' @ exc_msg cause)
               else cause))
   \<and> snd (create_graph load_stage chunk_stage store_stage) =
     (case first_failure load_stage chunk_stage store_stage of
        None \<Rightarrow> [Loading, Chunking, Storing]
      | Some (stg, cause) \<Rightarrow> stages_upto stg)
   \<and> distinct (snd (create_graph load_stage chunk_stage store_stage))"
  by (simp add: create_graph_def first_failure_def except_ValueError_def split: sum.splits)

theorem create_graph_outcome_witness:
  "first_failure (load_document demo_fs demo_loader demo_loader)
      (chunk_documents char_tokenizer)
      (\<lambda>chunks. fst (graphstore (\<lambda>cs. Inl (Exc ValueError ''no entities'')) empty_db chunks))
     = Some (Storing, Exc ValueError ''no entities'')
   \<and> create_graph (load_document demo_fs demo_loader demo_loader)
      (chunk_documents char_tokenizer)
      (\<lambda>chunks. fst (graphstore (\<lambda>cs. Inl (Exc ValueError ''no entities'')) empty_db chunks))
     = (Inl (Exc ValueError ''graph is not loaded: no entities''), [Loading, Chunking, Storing])
   \<and> first_failure (load_document demo_fs demo_loader demo_loader)
      (chunk_documents char_tokenizer)
      (\<lambda>chunks. fst (graphstore demo_transformer empty_db chunks)) = None
   \<and> create_graph (load_document demo_fs demo_loader demo_loader)
      (chunk_documents char_tokenizer)
      (\<lambda>chunks. fst (graphstore demo_transformer empty_db chunks))
     = (Inr ''graph is loaded'', [Loading, Chunking, Storing])"
proof -
  let ?ld = "load_document demo_fs demo_loader demo_loader"
  let ?ch = "chunk_documents char_tokenizer"
  let ?bad = "\<lambda>chunks. fst (graphstore (\<lambda>cs. Inl (Exc ValueError ''no entities'')) empty_db chunks)"
  let ?ok = "\<lambda>chunks. fst (graphstore demo_transformer empty_db chunks)"
  have l: "\<exists>docs. ?ld = Inr docs"
    by (simp add: load_document_def os_listdir_def demo_fs_def Uploader_def
        load_entries.simps(2) endswith_def demo_loader_def os_path_join_def Let_def)
  have f1: "first_failure ?ld ?ch ?bad = Some (Storing, Exc ValueError ''no entities'')"
    using l by (auto simp: first_failure_def chunk_documents_def TokenTextSplitter_def
        graphstore_def)
  have f2: "first_failure ?ld ?ch ?ok = None"
    using l by (auto simp: first_failure_def chunk_documents_def TokenTextSplitter_def
        graphstore_def demo_transformer_def add_graph_documents_def empty_db_def)
  from create_graph_outcome [of ?ld ?ch ?bad] f1
  have c1: "create_graph ?ld ?ch ?bad
     = (Inl (Exc ValueError ''graph is not loaded: no entities''), [Loading, Chunking, Storing])"
    by (simp add: isinstance_def prod_eq_iff)
  from create_graph_outcome [of ?ld ?ch ?ok] f2
  have c2: "create_graph ?ld ?ch ?ok = (Inr ''graph is loaded'', [Loading, Chunking, Storing])"
    by (simp add: prod_eq_iff)
  from f1 f2 c1 c2 show ?thesis by blast
qed

end
